theory Spec2Isabelle
  imports Complex_Main "HOL-Library.Multiset"
begin

section \<open>Data model of \<^verbatim>\<open>api_server.py\<close>\<close>

text \<open>
  The Python \<^verbatim>\<open>float\<close> fields are modelled as \<^typ>\<open>real\<close>: arithmetic is exact, and
  NaN, the infinities and the rounding of IEEE doubles are outside the model. Python's
  \<^verbatim>\<open>int\<close> is \<^typ>\<open>int\<close>, \<^verbatim>\<open>str\<close> is \<^typ>\<open>string\<close>.
\<close>

record observation =
  station_id :: string
  timestamp :: int
  temp_out :: real
  out_hum :: real
  wind_speed :: real
  bar :: real
  rain :: real

record detection_request =
  observations :: "observation list"
  window_len :: int
  stride :: int
  threshold :: real

text \<open>
  \<^verbatim>\<open>AnomalyResult\<close>. Its field \<^verbatim>\<open>station_id\<close> is named \<open>anomaly_station_id\<close> here,
  since a record field of that name exists already.
\<close>

record anomaly_result =
  time_start :: string
  time_end :: string
  anomaly_station_id :: string
  variable :: string
  anomaly_timestamp :: string
  anomaly_value :: real
  z_score :: real

text \<open>The \<^verbatim>\<open>parameters\<close> dictionary of the response, one field per key.\<close>

record parameters_dict =
  param_window_len :: int
  param_stride :: int
  param_threshold :: real
  param_variables :: "string list"

record detection_response =
  status :: string
  message :: string
  detection_time :: string
  total_observations :: nat
  total_anomalies :: nat
  parameters :: parameters_dict
  anomalies :: "anomaly_result list"

datatype http_exception = HTTPException (status_code: nat) (detail: string)

text \<open>
  The five attribute names of the list \<^verbatim>\<open>variables\<close>, and \<^verbatim>\<open>getattr(obs, var)\<close> on them.
\<close>

datatype var = Temp_out | Out_hum | Wind_speed | Bar | Rain

fun var_name :: "var \<Rightarrow> string" where
  "var_name Temp_out = ''temp_out''"
| "var_name Out_hum = ''out_hum''"
| "var_name Wind_speed = ''wind_speed''"
| "var_name Bar = ''bar''"
| "var_name Rain = ''rain''"

fun getattr :: "observation \<Rightarrow> var \<Rightarrow> real" where
  "getattr obs Temp_out = temp_out obs"
| "getattr obs Out_hum = out_hum obs"
| "getattr obs Wind_speed = wind_speed obs"
| "getattr obs Bar = bar obs"
| "getattr obs Rain = rain obs"

definition variables :: "var list" where
  "variables = [Temp_out, Out_hum, Wind_speed, Bar, Rain]"

section \<open>Library functions the detector calls\<close>

text \<open>
  An exception is a value: \<open>Inl msg\<close> is a raised exception whose \<^verbatim>\<open>str(e)\<close> is \<open>msg\<close>,
  \<open>Inr v\<close> is a normal return. A \<^verbatim>\<open>for\<close> loop whose body may raise threads the mutable
  state through the iterations and stops at the first exception.
\<close>

fun for_each :: "('x \<Rightarrow> 's \<Rightarrow> string + 's) \<Rightarrow> 'x list \<Rightarrow> 's \<Rightarrow> string + 's" where
  "for_each body [] s = Inr s"
| "for_each body (x # xs) s =
     (case body x s of Inl e \<Rightarrow> Inl e | Inr s' \<Rightarrow> for_each body xs s')"

text \<open>\<^verbatim>\<open>np.mean\<close> and \<^verbatim>\<open>np.std\<close> (population standard deviation, \<^verbatim>\<open>ddof = 0\<close>).\<close>

definition np_mean :: "real list \<Rightarrow> real" where
  "np_mean xs = sum_list xs / real (length xs)"

definition np_std :: "real list \<Rightarrow> real" where
  "np_std xs = sqrt (np_mean (map (\<lambda>x. (x - np_mean xs)\<^sup>2) xs))"

text \<open>\<^verbatim>\<open>min\<close> and \<^verbatim>\<open>max\<close> of a list; both raise \<^verbatim>\<open>ValueError\<close> on an empty one.\<close>

fun py_min :: "int list \<Rightarrow> string + int" where
  "py_min [] = Inl ''min() arg is an empty sequence''"
| "py_min (x # xs) = Inr (fold min xs x)"

fun py_max :: "int list \<Rightarrow> string + int" where
  "py_max [] = Inl ''max() arg is an empty sequence''"
| "py_max (x # xs) = Inr (fold max xs x)"

text \<open>
  \<^verbatim>\<open>round(x, 2)\<close>: to the nearest multiple of 1/100, a tie going to the even one.
\<close>

definition round_half_even :: "real \<Rightarrow> int" where
  "round_half_even x =
     (let f = \<lfloor>x\<rfloor>; d = x - of_int f in
      if d < 1 / 2 then f
      else if d > 1 / 2 then f + 1
      else if even f then f else f + 1)"

definition py_round2 :: "real \<Rightarrow> real" where
  "py_round2 x = of_int (round_half_even (x * 100)) / 100"

text \<open>\<^verbatim>\<open>str(n)\<close> of a natural number, in decimal.\<close>

definition digit_char :: "nat \<Rightarrow> char" where
  "digit_char d = ''0123456789'' ! d"

fun str_nat :: "nat \<Rightarrow> string" where
  "str_nat n = (if n < 10 then [digit_char n] else str_nat (n div 10) @ [digit_char (n mod 10)])"

declare str_nat.simps [simp del]

section \<open>The detector: \<^verbatim>\<open>detect_temporal_anomalies\<close>\<close>

text \<open>
  \<^verbatim>\<open>station_data[obs.station_id].append(obs)\<close> on a \<^verbatim>\<open>defaultdict(list)\<close>. A Python
  dictionary iterates in the order its keys were inserted, so it is an association list
  here: a known key has its list extended in place, a new key goes to the end.
\<close>

fun append_obs ::
  "(string \<times> observation list) list \<Rightarrow> observation \<Rightarrow> (string \<times> observation list) list" where
  "append_obs [] obs = [(station_id obs, [obs])]"
| "append_obs ((k, v) # rest) obs =
     (if k = station_id obs then (k, v @ [obs]) # rest else (k, v) # append_obs rest obs)"

definition group_by_station :: "observation list \<Rightarrow> (string \<times> observation list) list" where
  "group_by_station obs_in = foldl append_obs [] obs_in"

text \<open>
  Line 229, \<^verbatim>\<open>z_scores = (values - mean) / std\<close>. The division is the parameter
  \<open>dv\<close>; the program is the instance with the division of the reals.
\<close>

definition z_scores :: "(real \<Rightarrow> real \<Rightarrow> real) \<Rightarrow> real list \<Rightarrow> real \<Rightarrow> real \<Rightarrow> real list" where
  "z_scores dv vals mean std = map (\<lambda>x. dv (x - mean) std) vals"

text \<open>
  Lines 233 to 242, the body of the innermost loop. \<open>fmt\<close> stands for
  \<^verbatim>\<open>datetime.fromtimestamp(t).strftime("%Y-%m-%d %H:%M:%S")\<close>, which depends on the local
  time zone and raises for a timestamp outside the platform's range.
\<close>

definition report_anomaly ::
  "(int \<Rightarrow> string + string) \<Rightarrow> string \<Rightarrow> string \<Rightarrow> string \<Rightarrow> var \<Rightarrow> real \<Rightarrow>
   observation \<times> real \<Rightarrow> anomaly_result list \<Rightarrow> string + anomaly_result list" where
  "report_anomaly fmt t_start t_end sid v thr p anoms =
     (case p of (obs, z) \<Rightarrow>
       if \<bar>z\<bar> > thr then
         (case fmt (timestamp obs) of
            Inl e \<Rightarrow> Inl e
          | Inr ts \<Rightarrow> Inr (anoms @
              [\<lparr>time_start = t_start, time_end = t_end, anomaly_station_id = sid,
                variable = var_name v, anomaly_timestamp = ts,
                anomaly_value = py_round2 (getattr obs v), z_score = py_round2 z\<rparr>]))
       else Inr anoms)"

text \<open>Lines 218 to 242, the body of the loop over \<^verbatim>\<open>variables\<close>.\<close>

definition check_variable ::
  "(real \<Rightarrow> real \<Rightarrow> real) \<Rightarrow> (int \<Rightarrow> string + string) \<Rightarrow> string \<Rightarrow> string \<Rightarrow> string \<Rightarrow>
   observation list \<Rightarrow> real \<Rightarrow> var \<Rightarrow> anomaly_result list \<Rightarrow> string + anomaly_result list" where
  "check_variable dv fmt t_start t_end sid obs_list thr v anoms =
     (let vals = map (\<lambda>obs. getattr obs v) obs_list in
      if np_std vals < 1 / 1000000 then Inr anoms
      else
        let mean = np_mean vals; std = np_std vals in
        if std > 0 then
          for_each (report_anomaly fmt t_start t_end sid v thr)
            (zip obs_list (z_scores dv vals mean std)) anoms
        else Inr anoms)"

text \<open>Lines 205 to 242, the body of the loop over \<^verbatim>\<open>station_data.items()\<close>.\<close>

definition check_station ::
  "(real \<Rightarrow> real \<Rightarrow> real) \<Rightarrow> (int \<Rightarrow> string + string) \<Rightarrow> real \<Rightarrow>
   string \<times> observation list \<Rightarrow> anomaly_result list \<Rightarrow> string + anomaly_result list" where
  "check_station dv fmt thr item anoms =
     (case item of (sid, unsorted) \<Rightarrow>
       let obs_list = sort_key timestamp unsorted in
       if length obs_list < 3 then Inr anoms
       else
         let timestamps = map timestamp obs_list in
         (case py_min timestamps of Inl e \<Rightarrow> Inl e | Inr lo \<Rightarrow>
           (case fmt lo of Inl e \<Rightarrow> Inl e | Inr t_start \<Rightarrow>
             (case py_max timestamps of Inl e \<Rightarrow> Inl e | Inr hi \<Rightarrow>
               (case fmt hi of Inl e \<Rightarrow> Inl e | Inr t_end \<Rightarrow>
                  for_each (check_variable dv fmt t_start t_end sid obs_list thr)
                    variables anoms)))))"

definition detect_with ::
  "(real \<Rightarrow> real \<Rightarrow> real) \<Rightarrow> (int \<Rightarrow> string + string) \<Rightarrow> observation list \<Rightarrow> real \<Rightarrow>
   string + anomaly_result list" where
  "detect_with dv fmt obs_in thr =
     for_each (check_station dv fmt thr) (group_by_station obs_in) []"

definition detect_temporal_anomalies ::
  "(int \<Rightarrow> string + string) \<Rightarrow> observation list \<Rightarrow> real \<Rightarrow> string + anomaly_result list" where
  "detect_temporal_anomalies fmt obs_in thr = detect_with (/) fmt obs_in thr"

section \<open>The endpoint: \<^verbatim>\<open>POST /detect\<close>\<close>

text \<open>The check mark that opens both messages, as its three UTF-8 bytes.\<close>

definition check_mark :: string where
  "check_mark = [CHR 0xE2, CHR 0x9C, CHR 0x93]"

text \<open>
  \<^verbatim>\<open>detect_anomalies\<close>, with the detector it calls as the parameter \<open>detector\<close> and
  \<^verbatim>\<open>datetime.now().strftime(...)\<close> as \<open>now\<close>. \<open>Inl\<close> is the \<^verbatim>\<open>HTTPException\<close> raised.
  The request has passed the validation of its field constraints already.
\<close>

definition detect_anomalies_with ::
  "(observation list \<Rightarrow> real \<Rightarrow> string + anomaly_result list) \<Rightarrow> string \<Rightarrow> detection_request \<Rightarrow>
   http_exception + detection_response" where
  "detect_anomalies_with detector now request =
     (if observations request = [] then
        Inl (HTTPException 400 ''No observations provided'')
      else if length (observations request) < 3 then
        Inl (HTTPException 400
          (''Insufficient data: '' @ str_nat (length (observations request)) @
           '' observations provided. Minimum 3 required for statistical analysis.''))
      else
        (case detector (observations request) (threshold request) of
           Inl e \<Rightarrow> Inl (HTTPException 500 (''Detection failed: '' @ e))
         | Inr anoms \<Rightarrow>
             Inr \<lparr>status = (if length anoms > 0 then ''anomalies_found'' else ''no_anomalies''),
                  message =
                    (if length anoms > 0 then
                       check_mark @ '' Detection completed. Found '' @ str_nat (length anoms) @
                       '' anomalie(s) in '' @ str_nat (length (observations request)) @
                       '' observations.''
                     else
                       check_mark @ '' Detection completed. No anomalies detected in '' @
                       str_nat (length (observations request)) @
                       '' observations. All values are within normal range.''),
                  detection_time = now,
                  total_observations = length (observations request),
                  total_anomalies = length anoms,
                  parameters =
                    \<lparr>param_window_len = window_len request, param_stride = stride request,
                     param_threshold = threshold request,
                     param_variables = [''temp_out'', ''out_hum'', ''wind_speed'', ''bar'', ''rain'']\<rparr>,
                  anomalies = anoms\<rparr>))"

definition detect_anomalies ::
  "(int \<Rightarrow> string + string) \<Rightarrow> string \<Rightarrow> detection_request \<Rightarrow>
   http_exception + detection_response" where
  "detect_anomalies fmt now request =
     detect_anomalies_with (detect_temporal_anomalies fmt) now request"

section \<open>What the detector is proved to return\<close>

text \<open>
  The functions of this section are not in the source. They describe the result of
  \<open>detect_temporal_anomalies\<close> without loops and accumulators, so that the theorems
  below can say what the loops compute.
\<close>

text \<open>The distinct elements of a list, in the order of their first occurrence.\<close>

fun first_seen :: "'a list \<Rightarrow> 'a list" where
  "first_seen [] = []"
| "first_seen (x # xs) = x # removeAll x (first_seen xs)"

text \<open>
  The group of a station: its observations in arrival order, then sorted by timestamp with
  a stable sort.
\<close>

definition station_group :: "observation list \<Rightarrow> string \<Rightarrow> observation list" where
  "station_group obs_in sid = sort_key timestamp (filter (\<lambda>obs. station_id obs = sid) obs_in)"

text \<open>The values of a variable over a group, and the Z-score of an observation in it.\<close>

definition values_of :: "var \<Rightarrow> observation list \<Rightarrow> real list" where
  "values_of v g = map (\<lambda>obs. getattr obs v) g"

definition z_of :: "var \<Rightarrow> observation list \<Rightarrow> observation \<Rightarrow> real" where
  "z_of v g obs = (getattr obs v - np_mean (values_of v g)) / np_std (values_of v g)"

text \<open>
  The record of a flagged observation, for a formatter \<open>f\<close> that does not raise; the
  observations of a group that are flagged for a variable; the records of a variable and of
  a station; and the whole result.
\<close>

definition record_of ::
  "(int \<Rightarrow> string) \<Rightarrow> string \<Rightarrow> observation list \<Rightarrow> var \<Rightarrow> observation \<Rightarrow> anomaly_result" where
  "record_of f sid g v obs =
     \<lparr>time_start = f (Min (set (map timestamp g))), time_end = f (Max (set (map timestamp g))),
      anomaly_station_id = sid, variable = var_name v, anomaly_timestamp = f (timestamp obs),
      anomaly_value = py_round2 (getattr obs v), z_score = py_round2 (z_of v g obs)\<rparr>"

definition flagged :: "real \<Rightarrow> var \<Rightarrow> observation list \<Rightarrow> observation list" where
  "flagged thr v g =
     (if np_std (values_of v g) < 1 / 1000000 then []
      else filter (\<lambda>obs. \<bar>z_of v g obs\<bar> > thr) g)"

definition var_block ::
  "(int \<Rightarrow> string) \<Rightarrow> real \<Rightarrow> string \<Rightarrow> observation list \<Rightarrow> var \<Rightarrow> anomaly_result list" where
  "var_block f thr sid g v = map (record_of f sid g v) (flagged thr v g)"

definition station_block ::
  "(int \<Rightarrow> string) \<Rightarrow> real \<Rightarrow> string \<Rightarrow> observation list \<Rightarrow> anomaly_result list" where
  "station_block f thr sid g =
     (if length g < 3 then [] else concat (map (var_block f thr sid g) variables))"

definition expected :: "(int \<Rightarrow> string) \<Rightarrow> observation list \<Rightarrow> real \<Rightarrow> anomaly_result list" where
  "expected f obs_in thr =
     concat (map (\<lambda>sid. station_block f thr sid (station_group obs_in sid))
       (first_seen (map station_id obs_in)))"

text \<open>
  The timestamps that the detector passes to the formatter, in the order of the calls: the
  run raises at the first one the formatter rejects, and returns if there is none.
\<close>

definition station_calls :: "real \<Rightarrow> observation list \<Rightarrow> int list" where
  "station_calls thr g =
     (if length g < 3 then []
      else [Min (set (map timestamp g)), Max (set (map timestamp g))] @
        concat (map (\<lambda>v. map timestamp (flagged thr v g)) variables))"

definition fmt_calls :: "observation list \<Rightarrow> real \<Rightarrow> int list" where
  "fmt_calls obs_in thr =
     concat (map (\<lambda>sid. station_calls thr (station_group obs_in sid))
       (first_seen (map station_id obs_in)))"

fun first_error :: "('a \<Rightarrow> string + 'b) \<Rightarrow> 'a list \<Rightarrow> string option" where
  "first_error fmt [] = None"
| "first_error fmt (t # ts) = (case fmt t of Inl e \<Rightarrow> Some e | Inr _ \<Rightarrow> first_error fmt ts)"

definition outcome :: "string option \<Rightarrow> 'a \<Rightarrow> string + 'a" where
  "outcome err v = (case err of Some e \<Rightarrow> Inl e | None \<Rightarrow> Inr v)"

section \<open>A concrete batch\<close>

text \<open>
  A formatter and batches of observations on which the theorems below are exercised. The
  formatter prints the timestamp in decimal and raises before the epoch. In \<open>demo_obs\<close>
  station \<open>A\<close> has four observations, arriving out of order, and station \<open>B\<close> has one;
  \<open>bad_obs\<close> has a timestamp that the formatter rejects; in \<open>demo2_obs\<close> two stations
  have four observations each, station \<open>B\<close> comes first, has two observations with the same
  timestamp, and varies in temperature and in rainfall.
\<close>

definition demo_fmt :: "int \<Rightarrow> string + string" where
  "demo_fmt t = (if t < 0 then Inl ''year out of range'' else Inr (str_nat (nat t)))"

definition mk_obs :: "string \<Rightarrow> int \<Rightarrow> real \<Rightarrow> observation" where
  "mk_obs sid t x = \<lparr>station_id = sid, timestamp = t, temp_out = x, out_hum = 80,
     wind_speed = 5, bar = 1013, rain = 0\<rparr>"

definition demo_obs :: "observation list" where
  "demo_obs = [mk_obs ''A'' 3 1, mk_obs ''B'' 1 7, mk_obs ''A'' 1 (-1), mk_obs ''A'' 4 (-1),
     mk_obs ''A'' 2 1]"

definition demo_rec :: "string \<Rightarrow> real \<Rightarrow> anomaly_result" where
  "demo_rec ts x = \<lparr>time_start = ''1'', time_end = ''4'', anomaly_station_id = ''A'',
     variable = ''temp_out'', anomaly_timestamp = ts, anomaly_value = x, z_score = x\<rparr>"

definition bad_obs :: "observation list" where
  "bad_obs = [mk_obs ''A'' 1 1, mk_obs ''A'' (-5) 2, mk_obs ''A'' 2 3]"

definition mk_obs2 :: "string \<Rightarrow> int \<Rightarrow> real \<Rightarrow> real \<Rightarrow> observation" where
  "mk_obs2 sid t x y = (mk_obs sid t x)\<lparr>rain := y\<rparr>"

definition demo2_obs :: "observation list" where
  "demo2_obs =
     [mk_obs2 ''B'' 5 7 2, mk_obs ''A'' 3 7, mk_obs2 ''B'' 1 1 8, mk_obs ''A'' 1 1,
      mk_obs2 ''B'' 5 (-1) 0, mk_obs ''A'' 4 (-1), mk_obs2 ''B'' 9 1 2, mk_obs ''A'' 2 1]"

definition demo2_rec :: "string \<Rightarrow> string \<Rightarrow> string \<Rightarrow> string \<Rightarrow> real \<Rightarrow> real \<Rightarrow> anomaly_result" where
  "demo2_rec sid hi var ts x z = \<lparr>time_start = ''1'', time_end = hi, anomaly_station_id = sid,
     variable = var, anomaly_timestamp = ts, anomaly_value = x, z_score = z\<rparr>"

section \<open>The loops compute the description\<close>

subsection \<open>Loops as concatenations\<close>

lemma first_error_append:
  "first_error fmt (a @ b) = (case first_error fmt a of Some e \<Rightarrow> Some e | None \<Rightarrow> first_error fmt b)"
  by (induction a) (auto split: sum.splits)

lemma for_each_collect:
  assumes "\<And>x acc. x \<in> set xs \<Longrightarrow> body x acc = outcome (first_error fmt (calls x)) (acc @ outs x)"
  shows "for_each body xs acc =
    outcome (first_error fmt (concat (map calls xs))) (acc @ concat (map outs xs))"
  using assms
proof (induction xs arbitrary: acc)
  case Nil
  then show ?case by (simp add: outcome_def)
next
  case (Cons x xs)
  show ?case
  proof (cases "first_error fmt (calls x)")
    case None
    then have "body x acc = Inr (acc @ outs x)" using Cons.prems[of x acc] by (simp add: outcome_def)
    moreover have "for_each body xs (acc @ outs x) =
      outcome (first_error fmt (concat (map calls xs))) ((acc @ outs x) @ concat (map outs xs))"
      using Cons.IH Cons.prems by simp
    ultimately show ?thesis using None by (simp add: first_error_append)
  next
    case (Some e)
    then have "body x acc = Inl e" using Cons.prems[of x acc] by (simp add: outcome_def)
    then show ?thesis using Some by (simp add: first_error_append outcome_def)
  qed
qed

subsection \<open>Grouping by station\<close>

lemma first_seen_snoc:
  "first_seen (xs @ [x]) = (if x \<in> set xs then first_seen xs else first_seen xs @ [x])"
  by (induction xs) auto

lemma set_first_seen [simp]: "set (first_seen xs) = set xs"
  by (induction xs) auto

lemma distinct_first_seen [simp]: "distinct (first_seen xs)"
  by (induction xs) (auto simp: distinct_removeAll)

lemma append_obs_known:
  assumes "distinct ks" "station_id obs \<in> set ks"
  shows "append_obs (map (\<lambda>k. (k, F k)) ks) obs =
    map (\<lambda>k. (k, if k = station_id obs then F k @ [obs] else F k)) ks"
  using assms by (induction ks) auto

lemma append_obs_new:
  assumes "station_id obs \<notin> set ks"
  shows "append_obs (map (\<lambda>k. (k, F k)) ks) obs = map (\<lambda>k. (k, F k)) ks @ [(station_id obs, [obs])]"
  using assms by (induction ks) auto

lemma filter_key_absent: "k \<notin> set (map f xs) \<Longrightarrow> filter (\<lambda>x. f x = k) xs = []"
  by (induction xs) auto

lemma group_by_station_eq:
  "group_by_station obs_in =
     map (\<lambda>k. (k, filter (\<lambda>obs. station_id obs = k) obs_in)) (first_seen (map station_id obs_in))"
proof (induction obs_in rule: rev_induct)
  case Nil
  then show ?case by (simp add: group_by_station_def)
next
  case (snoc obs xs)
  let ?F = "\<lambda>k. filter (\<lambda>obs. station_id obs = k) xs"
  let ?ks = "first_seen (map station_id xs)"
  have step: "group_by_station (xs @ [obs]) = append_obs (map (\<lambda>k. (k, ?F k)) ?ks) obs"
    using snoc.IH by (simp add: group_by_station_def)
  show ?case
  proof (cases "station_id obs \<in> set (map station_id xs)")
    case True
    then have "append_obs (map (\<lambda>k. (k, ?F k)) ?ks) obs =
      map (\<lambda>k. (k, if k = station_id obs then ?F k @ [obs] else ?F k)) ?ks"
      by (intro append_obs_known) auto
    then show ?thesis using True step by (auto simp: first_seen_snoc)
  next
    case False
    then have "append_obs (map (\<lambda>k. (k, ?F k)) ?ks) obs =
      map (\<lambda>k. (k, ?F k)) ?ks @ [(station_id obs, [obs])]"
      by (intro append_obs_new) auto
    moreover have "filter (\<lambda>o'. station_id o' = station_id obs) xs = []"
      using False by (rule filter_key_absent)
    ultimately show ?thesis using False step by (auto simp: first_seen_snoc)
  qed
qed


subsection \<open>The three loops\<close>

lemma concat_map_if:
  "concat (map (\<lambda>x. if P x then [f x] else []) xs) = map f (filter P xs)"
  by (induction xs) auto

lemma report_anomaly_eq:
  "report_anomaly fmt ts te sid v thr p acc =
     outcome (first_error fmt (if \<bar>snd p\<bar> > thr then [timestamp (fst p)] else []))
       (acc @ (if \<bar>snd p\<bar> > thr then
          [\<lparr>time_start = ts, time_end = te, anomaly_station_id = sid,
            variable = var_name v, anomaly_timestamp = projr (fmt (timestamp (fst p))),
            anomaly_value = py_round2 (getattr (fst p) v), z_score = py_round2 (snd p)\<rparr>]
          else []))"
  by (cases p) (simp add: report_anomaly_def outcome_def split: sum.splits)

lemma zip_z_scores:
  "zip g (z_scores (/) (map (\<lambda>obs. getattr obs v) g) (np_mean (values_of v g)) (np_std (values_of v g)))
     = map (\<lambda>obs. (obs, z_of v g obs)) g"
  by (simp add: z_scores_def z_of_def zip_map2 zip_same_conv_map comp_def)

lemma check_variable_eq:
  "check_variable (/) fmt ts te sid g thr v acc =
     outcome (first_error fmt (map timestamp (flagged thr v g)))
       (acc @ map (\<lambda>obs.
          \<lparr>time_start = ts, time_end = te, anomaly_station_id = sid,
            variable = var_name v, anomaly_timestamp = projr (fmt (timestamp obs)),
            anomaly_value = py_round2 (getattr obs v), z_score = py_round2 (z_of v g obs)\<rparr>)
          (flagged thr v g))"
proof (cases "np_std (values_of v g) < 1 / 1000000")
  case True
  then show ?thesis
    by (simp add: check_variable_def flagged_def outcome_def values_of_def)
next
  case False
  then have pos: "np_std (values_of v g) > 0" by simp
  have "check_variable (/) fmt ts te sid g thr v acc =
      for_each (report_anomaly fmt ts te sid v thr) (map (\<lambda>obs. (obs, z_of v g obs)) g) acc"
    using False pos zip_z_scores[of g v]
    by (simp add: check_variable_def Let_def values_of_def)
  also have "\<dots> = outcome
      (first_error fmt (concat (map (\<lambda>p. if \<bar>snd p\<bar> > thr then [timestamp (fst p)] else [])
         (map (\<lambda>obs. (obs, z_of v g obs)) g))))
      (acc @ concat (map (\<lambda>p. if \<bar>snd p\<bar> > thr then
          [\<lparr>time_start = ts, time_end = te, anomaly_station_id = sid,
            variable = var_name v, anomaly_timestamp = projr (fmt (timestamp (fst p))),
            anomaly_value = py_round2 (getattr (fst p) v), z_score = py_round2 (snd p)\<rparr>]
          else []) (map (\<lambda>obs. (obs, z_of v g obs)) g)))"
    by (rule for_each_collect) (rule report_anomaly_eq)
  finally show ?thesis
    using False by (simp add: comp_def concat_map_if flagged_def)
qed

lemma py_min_eq: "xs \<noteq> [] \<Longrightarrow> py_min xs = Inr (Min (set xs))"
  by (cases xs) (simp_all add: Min.set_eq_fold [symmetric])

lemma py_max_eq: "xs \<noteq> [] \<Longrightarrow> py_max xs = Inr (Max (set xs))"
  by (cases xs) (simp_all add: Max.set_eq_fold [symmetric])

lemma check_station_eq:
  "check_station (/) fmt thr (sid, unsorted) acc =
     outcome (first_error fmt (station_calls thr (sort_key timestamp unsorted)))
       (acc @ station_block (\<lambda>t. projr (fmt t)) thr sid (sort_key timestamp unsorted))"
proof (cases "length (sort_key timestamp unsorted) < 3")
  case True
  then show ?thesis
    by (simp add: check_station_def station_calls_def station_block_def outcome_def)
next
  case False
  define g where "g = sort_key timestamp unsorted"
  have "3 \<le> length g" using False by (simp add: g_def)
  then have ne: "map timestamp g \<noteq> []" by (cases g) simp_all
  let ?lo = "Min (set (map timestamp g))" and ?hi = "Max (set (map timestamp g))"
  have loop: "for_each (check_variable (/) fmt ts te sid g thr) variables acc =
      outcome (first_error fmt (concat (map (\<lambda>v. map timestamp (flagged thr v g)) variables)))
        (acc @ concat (map (\<lambda>v. map (\<lambda>obs.
          \<lparr>time_start = ts, time_end = te, anomaly_station_id = sid,
            variable = var_name v, anomaly_timestamp = projr (fmt (timestamp obs)),
            anomaly_value = py_round2 (getattr obs v), z_score = py_round2 (z_of v g obs)\<rparr>)
          (flagged thr v g)) variables))" for ts te
    by (rule for_each_collect) (rule check_variable_eq)
  have body: "check_station (/) fmt thr (sid, unsorted) acc =
      (case fmt ?lo of Inl e \<Rightarrow> Inl e | Inr ts \<Rightarrow>
        (case fmt ?hi of Inl e \<Rightarrow> Inl e | Inr te \<Rightarrow>
           for_each (check_variable (/) fmt ts te sid g thr) variables acc))"
    using False py_min_eq[OF ne] py_max_eq[OF ne]
    by (simp add: check_station_def Let_def g_def split: sum.splits)
  have calls: "station_calls thr g =
      [?lo, ?hi] @ concat (map (\<lambda>v. map timestamp (flagged thr v g)) variables)"
    using False by (simp add: station_calls_def g_def)
  have block: "station_block (\<lambda>t. projr (fmt t)) thr sid g =
      concat (map (\<lambda>v. map (record_of (\<lambda>t. projr (fmt t)) sid g v) (flagged thr v g)) variables)"
    using False by (simp add: station_block_def var_block_def [abs_def] g_def)
  show ?thesis
    unfolding g_def[symmetric] body calls block
    by (cases "fmt ?lo"; cases "fmt ?hi")
      (simp_all add: loop outcome_def record_of_def [abs_def] split: option.splits)
qed

lemma detect_eq:
  "detect_temporal_anomalies fmt obs_in thr =
     outcome (first_error fmt (fmt_calls obs_in thr)) (expected (\<lambda>t. projr (fmt t)) obs_in thr)"
proof -
  let ?ks = "first_seen (map station_id obs_in)"
  let ?items = "map (\<lambda>k. (k, filter (\<lambda>obs. station_id obs = k) obs_in)) ?ks"
  have "detect_temporal_anomalies fmt obs_in thr = for_each (check_station (/) fmt thr) ?items []"
    by (simp add: detect_temporal_anomalies_def detect_with_def group_by_station_eq)
  also have "\<dots> = outcome
      (first_error fmt (concat (map (\<lambda>item. station_calls thr (sort_key timestamp (snd item))) ?items)))
      ([] @ concat (map (\<lambda>item. station_block (\<lambda>t. projr (fmt t)) thr (fst item)
          (sort_key timestamp (snd item))) ?items))"
  proof (rule for_each_collect)
    fix x :: "string \<times> observation list" and acc
    show "check_station (/) fmt thr x acc =
        outcome (first_error fmt (station_calls thr (sort_key timestamp (snd x))))
         (acc @ station_block (\<lambda>t. projr (fmt t)) thr (fst x) (sort_key timestamp (snd x)))"
      using check_station_eq[of fmt thr "fst x" "snd x" acc] by simp
  qed
  finally show ?thesis
    by (simp add: comp_def fmt_calls_def expected_def station_group_def)
qed

subsection \<open>The records of one station and of one variable\<close>

lemma detect_Inr:
  assumes "detect_temporal_anomalies fmt obs_in thr = Inr out"
  shows "out = expected (\<lambda>t. projr (fmt t)) obs_in thr"
    and "first_error fmt (fmt_calls obs_in thr) = None"
  using assms by (auto simp: detect_eq outcome_def split: option.splits)

lemma first_error_None_iff:
  "first_error fmt ts = None \<longleftrightarrow> (\<forall>t\<in>set ts. \<exists>s. fmt t = Inr s)"
  by (induction ts) (auto split: sum.splits)

lemma concat_map_single_key:
  assumes "distinct ks"
  shows "concat (map (\<lambda>k. if k = sid then B k else []) ks) = (if sid \<in> set ks then B sid else [])"
  using assms by (induction ks) auto

lemma station_block_station:
  "r \<in> set (station_block f thr k g) \<Longrightarrow> anomaly_station_id r = k"
  by (auto simp: station_block_def var_block_def record_of_def split: if_splits)

lemma filter_station_block:
  "filter (\<lambda>r. anomaly_station_id r = sid) (station_block f thr k g) =
     (if k = sid then station_block f thr k g else [])"
  by (auto simp: filter_empty_conv dest: station_block_station intro!: filter_True)

lemma station_group_absent:
  "sid \<notin> set (map station_id obs_in) \<Longrightarrow> station_group obs_in sid = []"
  by (simp add: station_group_def filter_key_absent)

lemma filter_station_expected:
  "filter (\<lambda>r. anomaly_station_id r = sid) (expected f obs_in thr) =
     station_block f thr sid (station_group obs_in sid)"
proof -
  have "filter (\<lambda>r. anomaly_station_id r = sid) (expected f obs_in thr) =
      concat (map (\<lambda>k. if k = sid then station_block f thr k (station_group obs_in k) else [])
        (first_seen (map station_id obs_in)))"
    by (simp add: expected_def filter_concat comp_def filter_station_block)
  also have "\<dots> = (if sid \<in> set (first_seen (map station_id obs_in))
      then station_block f thr sid (station_group obs_in sid) else [])"
    by (rule concat_map_single_key) simp
  finally show ?thesis
    using station_group_absent[of sid obs_in] by (auto simp: station_block_def)
qed

lemma var_name_inj: "var_name a = var_name b \<longleftrightarrow> a = b"
  by (cases a; cases b) simp_all

lemma filter_var_block:
  "filter (\<lambda>r. variable r = var_name v) (var_block f thr sid g w) =
     (if w = v then var_block f thr sid g w else [])"
  by (simp add: var_block_def filter_map comp_def record_of_def var_name_inj)

lemma distinct_variables: "distinct variables" and set_variables: "set variables = UNIV"
proof -
  show "distinct variables" by (simp add: variables_def)
  have "v \<in> set variables" for v by (cases v) (simp_all add: variables_def)
  then show "set variables = UNIV" by auto
qed

lemma filter_station_var_expected:
  "filter (\<lambda>r. anomaly_station_id r = sid \<and> variable r = var_name v) (expected f obs_in thr) =
     (if length (station_group obs_in sid) < 3 then []
      else var_block f thr sid (station_group obs_in sid) v)"
proof -
  let ?g = "station_group obs_in sid"
  have "filter (\<lambda>r. anomaly_station_id r = sid \<and> variable r = var_name v) (expected f obs_in thr) =
      filter (\<lambda>r. variable r = var_name v)
        (filter (\<lambda>r. anomaly_station_id r = sid) (expected f obs_in thr))"
    by (simp add: conj_commute)
  also have "\<dots> = filter (\<lambda>r. variable r = var_name v) (station_block f thr sid ?g)"
    by (simp only: filter_station_expected)
  finally have step: "filter (\<lambda>r. anomaly_station_id r = sid \<and> variable r = var_name v)
      (expected f obs_in thr) = filter (\<lambda>r. variable r = var_name v) (station_block f thr sid ?g)" .
  show ?thesis
  proof (cases "length ?g < 3")
    case True
    then show ?thesis using step by (simp add: station_block_def)
  next
    case False
    have "filter (\<lambda>r. variable r = var_name v) (station_block f thr sid ?g) =
        concat (map (\<lambda>w. if w = v then var_block f thr sid ?g w else []) variables)"
      using False by (simp add: station_block_def filter_concat comp_def filter_var_block)
    also have "\<dots> = (if v \<in> set variables then var_block f thr sid ?g v else [])"
      by (rule concat_map_single_key) (rule distinct_variables)
    finally show ?thesis using False step by (simp add: set_variables)
  qed
qed

lemma fmt_calls_member:
  "t \<in> set (fmt_calls obs_in thr) \<longleftrightarrow>
     (\<exists>sid \<in> set (map station_id obs_in). t \<in> set (station_calls thr (station_group obs_in sid)))"
  by (auto simp: fmt_calls_def)

lemma station_group_nonempty:
  "station_group obs_in sid \<noteq> [] \<Longrightarrow> sid \<in> set (map station_id obs_in)"
  using station_group_absent by blast

lemma set_station_group: "set (station_group obs_in sid) = {obs \<in> set obs_in. station_id obs = sid}"
  by (auto simp: station_group_def)

lemma flagged_subset: "set (flagged thr v g) \<subseteq> set g"
  by (auto simp: flagged_def)

lemma station_calls_ok:
  assumes "first_error fmt (fmt_calls obs_in thr) = None"
    and "t \<in> set (station_calls thr (station_group obs_in sid))"
  shows "\<exists>s. fmt t = Inr s"
proof -
  have "station_group obs_in sid \<noteq> []" using assms(2) by (auto simp: station_calls_def)
  then have "sid \<in> set (map station_id obs_in)" by (rule station_group_nonempty)
  then have "t \<in> set (fmt_calls obs_in thr)"
    using assms(2) by (subst fmt_calls_member) (rule bexI)
  moreover have "\<forall>t\<in>set (fmt_calls obs_in thr). \<exists>s. fmt t = Inr s"
    using assms(1) by (simp only: first_error_None_iff)
  ultimately show ?thesis by (rule bspec [rotated])
qed

subsection \<open>The divisors of the Z-score computation\<close>

lemma for_each_cong_body:
  assumes "\<And>x s. x \<in> set xs \<Longrightarrow> body x s = body' x s"
  shows "for_each body xs s = for_each body' xs s"
  using assms by (induction xs arbitrary: s) (auto split: sum.splits)

lemma check_variable_division:
  assumes "\<And>x s. 1 / 1000000 \<le> s \<Longrightarrow> dv x s = x / s"
  shows "check_variable dv fmt ts te sid g thr v acc = check_variable (/) fmt ts te sid g thr v acc"
proof (cases "np_std (map (\<lambda>obs. getattr obs v) g) < 1 / 1000000")
  case True
  then show ?thesis by (simp add: check_variable_def)
next
  case False
  then have "z_scores dv vals mean (np_std (map (\<lambda>obs. getattr obs v) g)) =
      z_scores (/) vals mean (np_std (map (\<lambda>obs. getattr obs v) g))" for vals mean
    using assms by (simp add: z_scores_def)
  then show ?thesis by (simp add: check_variable_def Let_def)
qed

lemma check_station_division:
  assumes "\<And>x s. 1 / 1000000 \<le> s \<Longrightarrow> dv x s = x / s"
  shows "check_station dv fmt thr item acc = check_station (/) fmt thr item acc"
proof -
  have "for_each (check_variable dv fmt ts te sid g thr) variables acc =
      for_each (check_variable (/) fmt ts te sid g thr) variables acc" for ts te sid g
    by (rule for_each_cong_body) (rule check_variable_division [OF assms])
  then show ?thesis
    by (simp add: check_station_def Let_def split: prod.splits sum.splits)
qed

lemma detect_with_division:
  assumes "\<And>x s. 1 / 1000000 \<le> s \<Longrightarrow> dv x s = x / s"
  shows "detect_with dv fmt obs_in thr = detect_temporal_anomalies fmt obs_in thr"
  unfolding detect_temporal_anomalies_def detect_with_def
  by (rule for_each_cong_body) (rule check_station_division [OF assms])

lemma expected_member:
  assumes "r \<in> set (expected f obs_in thr)"
  shows "\<exists>sid v obs. 3 \<le> length (station_group obs_in sid) \<and>
     obs \<in> set (flagged thr v (station_group obs_in sid)) \<and>
     r = record_of f sid (station_group obs_in sid) v obs"
  using assms
  by (auto simp: expected_def station_block_def var_block_def not_less split: if_splits)

subsection \<open>Raising the threshold\<close>

lemma flagged_mono:
  assumes "t1 \<le> t2"
  shows "set (flagged t2 v g) \<subseteq> set (flagged t1 v g)"
    and "length (flagged t2 v g) \<le> length (flagged t1 v g)"
proof -
  have imp: "\<bar>z_of v g obs\<bar> > t2 \<Longrightarrow> \<bar>z_of v g obs\<bar> > t1" for obs
    using assms by simp
  show "set (flagged t2 v g) \<subseteq> set (flagged t1 v g)"
    using imp by (auto simp: flagged_def)
  have "filter (\<lambda>obs. \<bar>z_of v g obs\<bar> > t2) g =
      filter (\<lambda>obs. \<bar>z_of v g obs\<bar> > t2) (filter (\<lambda>obs. \<bar>z_of v g obs\<bar> > t1) g)"
    using imp by (auto intro: filter_cong)
  then have "length (filter (\<lambda>obs. \<bar>z_of v g obs\<bar> > t2) g) \<le>
      length (filter (\<lambda>obs. \<bar>z_of v g obs\<bar> > t1) g)"
    by (metis length_filter_le)
  then show "length (flagged t2 v g) \<le> length (flagged t1 v g)"
    by (simp add: flagged_def)
qed

lemma length_concat_mono:
  assumes "\<And>x. x \<in> set xs \<Longrightarrow> length (F x) \<le> length (G x)"
  shows "length (concat (map F xs)) \<le> length (concat (map G xs))"
  using assms by (induction xs) (auto intro: add_mono)

lemma length_expected_mono:
  assumes "t1 \<le> t2"
  shows "length (expected f obs_in t2) \<le> length (expected f obs_in t1)"
proof -
  have var: "length (var_block f t2 sid g v) \<le> length (var_block f t1 sid g v)" for sid g v
    using flagged_mono(2)[OF assms] by (simp add: var_block_def)
  have "length (station_block f t2 sid g) \<le> length (station_block f t1 sid g)" for sid g
    unfolding station_block_def using var by (auto intro: length_concat_mono)
  then show ?thesis
    unfolding expected_def by (intro length_concat_mono)
qed

lemma station_calls_mono:
  assumes "t1 \<le> t2"
  shows "set (station_calls t2 g) \<subseteq> set (station_calls t1 g)"
  using flagged_mono(1)[OF assms] by (fastforce simp: station_calls_def)

lemma fmt_calls_mono:
  assumes "t1 \<le> t2"
  shows "set (fmt_calls obs_in t2) \<subseteq> set (fmt_calls obs_in t1)"
  using station_calls_mono[OF assms] by (fastforce simp: fmt_calls_def)

subsection \<open>Order of the result\<close>

lemma station_group_sorted: "sorted (map timestamp (station_group obs_in sid))"
  by (simp add: station_group_def)

lemma station_group_stable:
  "filter (\<lambda>obs. timestamp obs = t) (station_group obs_in sid) =
     filter (\<lambda>obs. station_id obs = sid \<and> timestamp obs = t) obs_in"
  by (simp add: station_group_def sort_key_stable)

lemma expected_unfolded:
  "expected f obs_in thr =
     concat (map (\<lambda>sid.
         let g = station_group obs_in sid in
         if length g < 3 then []
         else concat (map (\<lambda>v. map (record_of f sid g v)
                 (filter (\<lambda>obs. 1 / 1000000 \<le> np_std (values_of v g) \<and> thr < \<bar>z_of v g obs\<bar>) g))
               [Temp_out, Out_hum, Wind_speed, Bar, Rain]))
       (first_seen (map station_id obs_in)))"
proof -
  have fl: "flagged thr v g =
      filter (\<lambda>obs. 1 / 1000000 \<le> np_std (values_of v g) \<and> thr < \<bar>z_of v g obs\<bar>) g" for v g
    by (simp add: flagged_def not_less)
  show ?thesis
    unfolding expected_def station_block_def var_block_def [abs_def] fl variables_def Let_def
    by (rule refl)
qed

subsection \<open>Permuting the input\<close>

lemma np_mean_perm: "mset xs = mset ys \<Longrightarrow> np_mean xs = np_mean ys"
  unfolding np_mean_def by (metis mset_eq_length sum_mset_sum_list)

lemma np_std_perm:
  assumes "mset xs = mset ys"
  shows "np_std xs = np_std ys"
proof -
  have "mset (map (\<lambda>x. (x - np_mean xs)\<^sup>2) xs) = mset (map (\<lambda>x. (x - np_mean ys)\<^sup>2) ys)"
    using assms np_mean_perm[OF assms] by simp
  then have "np_mean (map (\<lambda>x. (x - np_mean xs)\<^sup>2) xs) =
      np_mean (map (\<lambda>x. (x - np_mean ys)\<^sup>2) ys)"
    by (rule np_mean_perm)
  then show ?thesis by (simp add: np_std_def)
qed

lemma station_group_perm:
  "mset obs' = mset obs_in \<Longrightarrow> mset (station_group obs' sid) = mset (station_group obs_in sid)"
  by (simp add: station_group_def)

lemma values_of_perm: "mset g' = mset g \<Longrightarrow> mset (values_of v g') = mset (values_of v g)"
  by (simp add: values_of_def)

lemma z_of_perm:
  assumes "mset g' = mset g"
  shows "z_of v g' = z_of v g"
proof
  fix obs
  note vals = values_of_perm[OF assms, of v]
  show "z_of v g' obs = z_of v g obs"
    unfolding z_of_def np_mean_perm[OF vals] np_std_perm[OF vals] by (rule refl)
qed

lemma flagged_perm:
  assumes "mset g' = mset g"
  shows "mset (flagged thr v g') = mset (flagged thr v g)"
  unfolding flagged_def z_of_perm[OF assms] np_std_perm[OF values_of_perm[OF assms]]
  using assms by simp

lemma record_of_perm:
  assumes "mset g' = mset g"
  shows "record_of f sid g' v = record_of f sid g v"
proof
  fix obs
  have "set (map timestamp g') = set (map timestamp g)"
    using mset_eq_setD[OF assms] by simp
  then show "record_of f sid g' v obs = record_of f sid g v obs"
    unfolding record_of_def z_of_perm[OF assms] by simp
qed

lemma mset_concat_map_cong:
  assumes "\<And>x. mset (F x) = mset (G x)"
  shows "mset (concat (map F xs)) = mset (concat (map G xs))"
  using assms by (induction xs) simp_all

lemma station_block_perm:
  assumes "mset g' = mset g"
  shows "mset (station_block f thr sid g') = mset (station_block f thr sid g)"
proof -
  have "mset (var_block f thr sid g' v) = mset (var_block f thr sid g v)" for v
    by (simp add: var_block_def record_of_perm[OF assms] flagged_perm[OF assms])
  then have "mset (concat (map (var_block f thr sid g') variables)) =
      mset (concat (map (var_block f thr sid g) variables))"
    by (rule mset_concat_map_cong)
  then show ?thesis
    using mset_eq_length[OF assms] by (simp add: station_block_def)
qed

lemma station_calls_perm:
  assumes "mset g' = mset g"
  shows "set (station_calls thr g') = set (station_calls thr g)"
proof -
  have "set (flagged thr v g') = set (flagged thr v g)" for v
    using flagged_perm[OF assms] by (rule mset_eq_setD)
  then show ?thesis
    using mset_eq_length[OF assms] mset_eq_setD[OF assms] by (simp add: station_calls_def)
qed

lemma mset_concat_map_perm:
  assumes "mset ks' = mset ks"
  shows "mset (concat (map F ks')) = mset (concat (map F ks))"
proof -
  have "mset (concat (map F xs)) = (\<Sum>x\<in>#mset xs. mset (F x))" for xs
    by (induction xs) simp_all
  then show ?thesis using assms by simp
qed

lemma first_seen_perm:
  assumes "mset obs' = mset obs_in"
  shows "mset (first_seen (map station_id obs')) = mset (first_seen (map station_id obs_in))"
proof -
  have "set (map station_id obs') = set (map station_id obs_in)"
    using mset_eq_setD[OF assms] by simp
  then have "set (first_seen (map station_id obs')) = set (first_seen (map station_id obs_in))"
    by simp
  then show ?thesis
    by (simp only: set_eq_iff_mset_eq_distinct [OF distinct_first_seen distinct_first_seen, symmetric])
qed

lemma expected_perm:
  assumes "mset obs' = mset obs_in"
  shows "mset (expected f obs' thr) = mset (expected f obs_in thr)"
proof -
  have "mset (expected f obs' thr) =
      mset (concat (map (\<lambda>sid. station_block f thr sid (station_group obs_in sid))
        (first_seen (map station_id obs'))))"
    unfolding expected_def
    by (rule mset_concat_map_cong) (rule station_block_perm [OF station_group_perm [OF assms]])
  also have "\<dots> = mset (expected f obs_in thr)"
    unfolding expected_def by (rule mset_concat_map_perm) (rule first_seen_perm [OF assms])
  finally show ?thesis .
qed

lemma fmt_calls_perm:
  assumes "mset obs' = mset obs_in"
  shows "set (fmt_calls obs' thr) = set (fmt_calls obs_in thr)"
proof -
  have "set (map station_id obs') = set (map station_id obs_in)"
    using mset_eq_setD[OF assms] by simp
  then have keys: "set (first_seen (map station_id obs')) = set (first_seen (map station_id obs_in))"
    by simp
  have "set (station_calls thr (station_group obs' sid)) =
      set (station_calls thr (station_group obs_in sid))" for sid
    by (rule station_calls_perm) (rule station_group_perm [OF assms])
  then show ?thesis
    unfolding fmt_calls_def set_concat set_map image_image using keys by simp
qed

subsection \<open>The bound on the Z-score\<close>

lemma sum_list_shifted_squares:
  fixes ys :: "real list"
  shows "(\<Sum>y\<leftarrow>ys. (y - a)\<^sup>2) = (\<Sum>y\<leftarrow>ys. y\<^sup>2) - 2 * a * sum_list ys + real (length ys) * a\<^sup>2"
  by (induction ys) (simp_all add: power2_eq_square algebra_simps)

lemma sum_list_square_le:
  fixes ys :: "real list"
  shows "(sum_list ys)\<^sup>2 \<le> real (length ys) * (\<Sum>y\<leftarrow>ys. y\<^sup>2)"
proof (cases "ys = []")
  case True
  then show ?thesis by simp
next
  case False
  define k where "k = real (length ys)"
  define s where "s = sum_list ys"
  define q where "q = (\<Sum>y\<leftarrow>ys. y\<^sup>2)"
  have k: "0 < k" using False by (simp add: k_def)
  have "0 \<le> (\<Sum>y\<leftarrow>ys. (y - s / k)\<^sup>2)"
    by (rule sum_list_nonneg) auto
  also have "\<dots> = q - 2 * (s / k) * s + k * (s / k)\<^sup>2"
    by (simp add: sum_list_shifted_squares k_def s_def q_def)
  also have "\<dots> = q - s\<^sup>2 / k"
    using k by (simp add: power2_eq_square field_simps)
  finally have "s\<^sup>2 / k \<le> q" by simp
  then have "s\<^sup>2 \<le> k * q" using k by (simp add: field_simps)
  then show ?thesis by (simp add: k_def s_def q_def)
qed

lemma sum_list_deviations:
  fixes xs :: "real list"
  shows "(\<Sum>y\<leftarrow>xs. y - m) = sum_list xs - real (length xs) * m"
  by (induction xs) (simp_all add: algebra_simps)

lemma np_std_square:
  "(np_std xs)\<^sup>2 = (\<Sum>y\<leftarrow>xs. (y - np_mean xs)\<^sup>2) / real (length xs)"
proof -
  have "0 \<le> (\<Sum>y\<leftarrow>xs. (y - np_mean xs)\<^sup>2)"
    by (rule sum_list_nonneg) auto
  then have "0 \<le> np_mean (map (\<lambda>y. (y - np_mean xs)\<^sup>2) xs)"
    by (simp add: np_mean_def)
  then show ?thesis
    by (simp add: np_std_def) (simp add: np_mean_def)
qed

lemma deviation_bound:
  assumes "x \<in> set xs"
  shows "(x - np_mean xs)\<^sup>2 \<le> real (length xs - 1) * (np_std xs)\<^sup>2"
proof -
  obtain as bs where xs: "xs = as @ x # bs"
    using assms by (auto dest: split_list)
  define ys where "ys = as @ bs"
  define m where "m = np_mean xs"
  define n where "n = real (length xs)"
  define q where "q = (\<Sum>y\<leftarrow>ys. (y - m)\<^sup>2)"
  have n: "n = real (length ys) + 1" "0 < n" by (simp_all add: n_def xs ys_def)
  have "n * m = sum_list xs" using n(2) by (simp add: m_def np_mean_def n_def)
  then have "(\<Sum>y\<leftarrow>xs. y - m) = 0" by (simp add: sum_list_deviations n_def)
  then have dev: "(\<Sum>y\<leftarrow>ys. y - m) = - (x - m)" by (simp add: xs ys_def)
  have "(\<Sum>y\<leftarrow>ys. y - m)\<^sup>2 \<le> real (length ys) * (\<Sum>d\<leftarrow>map (\<lambda>y. y - m) ys. d\<^sup>2)"
    using sum_list_square_le[of "map (\<lambda>y. y - m) ys"] by simp
  then have cs: "(x - m)\<^sup>2 \<le> (n - 1) * q"
    by (simp add: dev n(1) q_def comp_def power2_commute[of m x])
  have total: "(\<Sum>y\<leftarrow>xs. (y - m)\<^sup>2) = (x - m)\<^sup>2 + q"
    by (simp add: xs ys_def q_def)
  have "n * (x - m)\<^sup>2 \<le> (n - 1) * ((x - m)\<^sup>2 + q)"
    using cs by (simp add: algebra_simps)
  then have "(x - m)\<^sup>2 \<le> (n - 1) * (((x - m)\<^sup>2 + q) / n)"
    using n(2) by (simp add: field_simps)
  moreover have "real (length xs - 1) = n - 1" by (simp add: n_def xs)
  ultimately show ?thesis
    unfolding np_std_square m_def[symmetric] total n_def[symmetric] by simp
qed

lemma z_of_bound:
  assumes "obs \<in> set g"
  shows "\<bar>z_of v g obs\<bar> \<le> sqrt (real (length g - 1))"
proof (cases "np_std (values_of v g) = 0")
  case True
  then show ?thesis by (simp add: z_of_def)
next
  case False
  define sd where "sd = np_std (values_of v g)"
  have "0 \<le> sd"
    unfolding sd_def np_std_def np_mean_def
    by (intro real_sqrt_ge_zero divide_nonneg_nonneg sum_list_nonneg) auto
  then have sd: "0 < sd" using False by (simp add: sd_def)
  have "getattr obs v \<in> set (values_of v g)" using assms by (simp add: values_of_def)
  then have "(getattr obs v - np_mean (values_of v g))\<^sup>2 \<le> real (length g - 1) * sd\<^sup>2"
    using deviation_bound[of "getattr obs v" "values_of v g"] by (simp add: values_of_def sd_def)
  then have "(z_of v g obs)\<^sup>2 \<le> real (length g - 1)"
    using sd by (simp add: z_of_def sd_def[symmetric] power_divide field_simps)
  then have "sqrt ((z_of v g obs)\<^sup>2) \<le> sqrt (real (length g - 1))"
    by (rule real_sqrt_le_mono)
  then show ?thesis by simp
qed

subsection \<open>When the detector returns\<close>

lemma station_calls_subset:
  "set (station_calls thr g) \<subseteq> timestamp ` set g"
proof (cases "length g < 3")
  case True
  then show ?thesis by (simp add: station_calls_def)
next
  case False
  then have ne: "set (map timestamp g) \<noteq> {}" by (cases g) simp_all
  have "Min (set (map timestamp g)) \<in> set (map timestamp g)"
    and "Max (set (map timestamp g)) \<in> set (map timestamp g)"
    using ne by (auto intro: Min_in Max_in)
  moreover have "timestamp ` set (flagged thr v g) \<subseteq> timestamp ` set g" for v
    using flagged_subset[of thr v g] by (rule image_mono)
  ultimately show ?thesis
    using False by (auto simp: station_calls_def)
qed

lemma fmt_calls_subset: "set (fmt_calls obs_in thr) \<subseteq> timestamp ` set obs_in"
proof
  fix t
  assume "t \<in> set (fmt_calls obs_in thr)"
  then obtain sid where "t \<in> set (station_calls thr (station_group obs_in sid))"
    by (auto simp: fmt_calls_def)
  then have "t \<in> timestamp ` set (station_group obs_in sid)"
    using station_calls_subset by (rule rev_subsetD)
  then show "t \<in> timestamp ` set obs_in"
    by (auto simp: set_station_group)
qed

lemma detect_returns:
  assumes "\<forall>obs\<in>set obs_in. \<exists>s. fmt (timestamp obs) = Inr s"
  shows "detect_temporal_anomalies fmt obs_in thr = Inr (expected (\<lambda>t. projr (fmt t)) obs_in thr)"
proof -
  have "\<forall>t\<in>set (fmt_calls obs_in thr). \<exists>s. fmt t = Inr s"
  proof
    fix t
    assume "t \<in> set (fmt_calls obs_in thr)"
    then have "t \<in> timestamp ` set obs_in" using fmt_calls_subset by (rule rev_subsetD)
    then obtain obs where "obs \<in> set obs_in" "t = timestamp obs" by (rule imageE)
    then show "\<exists>s. fmt t = Inr s" using assms by simp
  qed
  then have "first_error fmt (fmt_calls obs_in thr) = None"
    by (simp only: first_error_None_iff)
  then show ?thesis by (simp add: detect_eq outcome_def)
qed

lemma flagged_block:
  assumes "detect_temporal_anomalies fmt obs_in thr = Inr out"
    and "g = station_group obs_in sid"
    and "3 \<le> length g"
    and "1 / 1000000 \<le> np_std (values_of v g)"
  shows "\<exists>t_start t_end.
     fmt (Min (set (map timestamp g))) = Inr t_start \<and>
     fmt (Max (set (map timestamp g))) = Inr t_end \<and>
     filter (\<lambda>r. anomaly_station_id r = sid \<and> variable r = var_name v) out =
       map (\<lambda>obs.
           \<lparr>time_start = t_start, time_end = t_end, anomaly_station_id = sid,
            variable = var_name v, anomaly_timestamp = projr (fmt (timestamp obs)),
            anomaly_value = py_round2 (getattr obs v),
            z_score = py_round2 ((getattr obs v - np_mean (values_of v g)) / np_std (values_of v g))\<rparr>)
         (filter (\<lambda>obs. \<bar>(getattr obs v - np_mean (values_of v g)) / np_std (values_of v g)\<bar> > thr) g) \<and>
     (\<forall>obs \<in> set g.
        \<bar>(getattr obs v - np_mean (values_of v g)) / np_std (values_of v g)\<bar> > thr \<longrightarrow>
        (\<exists>s. fmt (timestamp obs) = Inr s))"
proof -
  note ok = detect_Inr[OF assms(1)]
  have fl: "flagged thr v g = filter (\<lambda>obs. \<bar>z_of v g obs\<bar> > thr) g"
    using assms(4) by (simp add: flagged_def)
  have calls: "station_calls thr g = [Min (set (map timestamp g)), Max (set (map timestamp g))] @
      concat (map (\<lambda>v. map timestamp (flagged thr v g)) variables)"
    using assms(3) by (simp add: station_calls_def)
  let ?lo = "Min (set (map timestamp g))" and ?hi = "Max (set (map timestamp g))"
  obtain t_start where lo: "fmt ?lo = Inr t_start"
    using station_calls_ok[OF ok(2), of ?lo sid] by (auto simp: calls simp flip: assms(2))
  obtain t_end where hi: "fmt ?hi = Inr t_end"
    using station_calls_ok[OF ok(2), of ?hi sid] by (auto simp: calls simp flip: assms(2))
  have each: "\<exists>s. fmt (timestamp obs) = Inr s"
    if "obs \<in> set g" "\<bar>z_of v g obs\<bar> > thr" for obs
  proof (rule station_calls_ok[OF ok(2), of _ sid])
    have "timestamp obs \<in> set (map timestamp (flagged thr v g))" using that by (simp add: fl)
    then show "timestamp obs \<in> set (station_calls thr (station_group obs_in sid))"
      unfolding assms(2)[symmetric] calls using set_variables by auto
  qed
  have "filter (\<lambda>r. anomaly_station_id r = sid \<and> variable r = var_name v) out =
      var_block (\<lambda>t. projr (fmt t)) thr sid g v"
    using assms(2,3) by (simp add: ok(1) filter_station_var_expected)
  then have "filter (\<lambda>r. anomaly_station_id r = sid \<and> variable r = var_name v) out =
      map (\<lambda>obs.
           \<lparr>time_start = t_start, time_end = t_end, anomaly_station_id = sid,
            variable = var_name v, anomaly_timestamp = projr (fmt (timestamp obs)),
            anomaly_value = py_round2 (getattr obs v),
            z_score = py_round2 ((getattr obs v - np_mean (values_of v g)) / np_std (values_of v g))\<rparr>)
         (filter (\<lambda>obs. \<bar>(getattr obs v - np_mean (values_of v g)) / np_std (values_of v g)\<bar> > thr) g)"
    using lo hi by (simp add: var_block_def fl record_of_def [abs_def] z_of_def)
  moreover have "\<forall>obs \<in> set g.
        \<bar>(getattr obs v - np_mean (values_of v g)) / np_std (values_of v g)\<bar> > thr \<longrightarrow>
        (\<exists>s. fmt (timestamp obs) = Inr s)"
    using each by (simp add: z_of_def)
  ultimately show ?thesis using lo hi by (intro exI conjI)
qed

lemma returned_order:
  assumes "detect_temporal_anomalies fmt obs_in thr = Inr out"
  shows "out =
     concat (map (\<lambda>sid.
         let g = station_group obs_in sid in
         if length g < 3 then []
         else concat (map (\<lambda>v. map (record_of (\<lambda>t. projr (fmt t)) sid g v)
                 (filter (\<lambda>obs. 1 / 1000000 \<le> np_std (values_of v g) \<and> thr < \<bar>z_of v g obs\<bar>) g))
               [Temp_out, Out_hum, Wind_speed, Bar, Rain]))
       (first_seen (map station_id obs_in))) \<and>
   (\<forall>sid. sorted (map timestamp (station_group obs_in sid))) \<and>
   (\<forall>sid t. filter (\<lambda>obs. timestamp obs = t) (station_group obs_in sid) =
      filter (\<lambda>obs. station_id obs = sid \<and> timestamp obs = t) obs_in)"
  using detect_Inr(1)[OF assms]
  by (simp only: expected_unfolded station_group_sorted station_group_stable simp_thms)

section \<open>The concrete batch, evaluated\<close>

lemmas eval_defs = detect_temporal_anomalies_def detect_with_def group_by_station_def mk_obs_def
  check_station_def check_variable_def variables_def np_std_def np_mean_def z_scores_def
  report_anomaly_def demo_fmt_def str_nat.simps digit_char_def py_round2_def
  round_half_even_def Let_def

lemma demo_eval:
  "detect_temporal_anomalies demo_fmt demo_obs (1 / 2) =
     Inr [demo_rec ''1'' (-1), demo_rec ''2'' 1, demo_rec ''3'' 1, demo_rec ''4'' (-1)]"
  by (simp add: eval_defs demo_obs_def demo_rec_def)

lemma demo_group:
  "station_group demo_obs ''A'' = [mk_obs ''A'' 1 (-1), mk_obs ''A'' 2 1, mk_obs ''A'' 3 1, mk_obs ''A'' 4 (-1)]"
  by (simp add: station_group_def demo_obs_def mk_obs_def)

lemma demo_std: "np_std (values_of Temp_out (station_group demo_obs ''A'')) = 1"
  and demo_mean: "np_mean (values_of Temp_out (station_group demo_obs ''A'')) = 0"
  by (simp_all add: demo_group values_of_def mk_obs_def np_std_def np_mean_def)

lemma demo_eval_default: "detect_temporal_anomalies demo_fmt demo_obs (5 / 2) = Inr []"
  by (simp add: eval_defs demo_obs_def)

lemma bad_eval: "detect_temporal_anomalies demo_fmt bad_obs (5 / 2) = Inl ''year out of range''"
  by (simp add: eval_defs bad_obs_def)

lemma demo2_eval:
  "detect_temporal_anomalies demo_fmt demo2_obs (3 / 4) =
     Inr [demo2_rec ''B'' ''9'' ''temp_out'' ''5'' 7 (167 / 100),
          demo2_rec ''B'' ''9'' ''temp_out'' ''5'' (-1) (-1),
          demo2_rec ''B'' ''9'' ''rain'' ''1'' 8 (167 / 100),
          demo2_rec ''B'' ''9'' ''rain'' ''5'' 0 (-1),
          demo2_rec ''A'' ''4'' ''temp_out'' ''3'' 7 (167 / 100),
          demo2_rec ''A'' ''4'' ''temp_out'' ''4'' (-1) (-1)]"
  by (simp add: eval_defs demo2_obs_def demo2_rec_def mk_obs2_def)

lemma demo2_rev_eval:
  "detect_temporal_anomalies demo_fmt (rev demo2_obs) (3 / 4) =
     Inr [demo2_rec ''A'' ''4'' ''temp_out'' ''3'' 7 (167 / 100),
          demo2_rec ''A'' ''4'' ''temp_out'' ''4'' (-1) (-1),
          demo2_rec ''B'' ''9'' ''temp_out'' ''5'' (-1) (-1),
          demo2_rec ''B'' ''9'' ''temp_out'' ''5'' 7 (167 / 100),
          demo2_rec ''B'' ''9'' ''rain'' ''1'' 8 (167 / 100),
          demo2_rec ''B'' ''9'' ''rain'' ''5'' 0 (-1)]"
  by (simp add: eval_defs demo2_obs_def demo2_rec_def mk_obs2_def)

lemma demo_fmt_accepts: "\<forall>obs\<in>set demo_obs. \<exists>s. demo_fmt (timestamp obs) = Inr s"
  and demo2_fmt_accepts: "\<forall>obs\<in>set demo2_obs. \<exists>s. demo_fmt (timestamp obs) = Inr s"
  by (simp_all add: demo_obs_def demo2_obs_def mk_obs_def mk_obs2_def demo_fmt_def)

section \<open>The claims\<close>

text \<open>
  C1. Take a station whose group \<open>g\<close> (its observations, sorted by timestamp) has at
  least three members, and a variable whose population standard deviation over \<open>g\<close> is at
  least \<open>1e-6\<close>. When the formatter accepts every timestamp of the batch, the detector
  returns. And in every result it returns, the records with that station and that variable
  are, one for one and in order, the observations of \<open>g\<close> whose Z-score
  \<open>z = (value - mean) / std\<close> has \<open>\<bar>z\<bar> > threshold\<close>: each carries the formatted minimum
  and maximum timestamp of the group, the station, the name of the variable, the formatted
  timestamp of the observation, and the value and \<open>z\<close> rounded to two decimals. An
  observation with \<open>\<bar>z\<bar> \<le> threshold\<close> has no record.
\<close>

theorem flagged_observations_reported:
  assumes "g = station_group obs_in sid"
    and "3 \<le> length g"
    and "1 / 1000000 \<le> np_std (values_of v g)"
  shows "((\<forall>obs\<in>set obs_in. \<exists>s. fmt (timestamp obs) = Inr s) \<longrightarrow>
       (\<exists>out. detect_temporal_anomalies fmt obs_in thr = Inr out)) \<and>
     (\<forall>out. detect_temporal_anomalies fmt obs_in thr = Inr out \<longrightarrow>
       (\<exists>t_start t_end.
         fmt (Min (set (map timestamp g))) = Inr t_start \<and>
         fmt (Max (set (map timestamp g))) = Inr t_end \<and>
         filter (\<lambda>r. anomaly_station_id r = sid \<and> variable r = var_name v) out =
           map (\<lambda>obs.
               \<lparr>time_start = t_start, time_end = t_end, anomaly_station_id = sid,
                variable = var_name v, anomaly_timestamp = projr (fmt (timestamp obs)),
                anomaly_value = py_round2 (getattr obs v),
                z_score = py_round2 ((getattr obs v - np_mean (values_of v g)) / np_std (values_of v g))\<rparr>)
             (filter (\<lambda>obs. \<bar>(getattr obs v - np_mean (values_of v g)) / np_std (values_of v g)\<bar> > thr) g) \<and>
         (\<forall>obs \<in> set g.
            \<bar>(getattr obs v - np_mean (values_of v g)) / np_std (values_of v g)\<bar> > thr \<longrightarrow>
            (\<exists>s. fmt (timestamp obs) = Inr s))))"
proof (intro conjI impI allI)
  assume "\<forall>obs\<in>set obs_in. \<exists>s. fmt (timestamp obs) = Inr s"
  then have "detect_temporal_anomalies fmt obs_in thr =
      Inr (expected (\<lambda>t. projr (fmt t)) obs_in thr)"
    by (rule detect_returns)
  then show "\<exists>out. detect_temporal_anomalies fmt obs_in thr = Inr out" ..
next
  fix out
  assume "detect_temporal_anomalies fmt obs_in thr = Inr out"
  then show "\<exists>t_start t_end.
         fmt (Min (set (map timestamp g))) = Inr t_start \<and>
         fmt (Max (set (map timestamp g))) = Inr t_end \<and>
         filter (\<lambda>r. anomaly_station_id r = sid \<and> variable r = var_name v) out =
           map (\<lambda>obs.
               \<lparr>time_start = t_start, time_end = t_end, anomaly_station_id = sid,
                variable = var_name v, anomaly_timestamp = projr (fmt (timestamp obs)),
                anomaly_value = py_round2 (getattr obs v),
                z_score = py_round2 ((getattr obs v - np_mean (values_of v g)) / np_std (values_of v g))\<rparr>)
             (filter (\<lambda>obs. \<bar>(getattr obs v - np_mean (values_of v g)) / np_std (values_of v g)\<bar> > thr) g) \<and>
         (\<forall>obs \<in> set g.
            \<bar>(getattr obs v - np_mean (values_of v g)) / np_std (values_of v g)\<bar> > thr \<longrightarrow>
            (\<exists>s. fmt (timestamp obs) = Inr s))"
    using assms by (rule flagged_block)
qed

theorem flagged_observations_reported_witness:
  "detect_temporal_anomalies demo_fmt demo_obs (1 / 2) =
     Inr [demo_rec ''1'' (-1), demo_rec ''2'' 1, demo_rec ''3'' 1, demo_rec ''4'' (-1)] \<and>
   3 \<le> length (station_group demo_obs ''A'') \<and>
   1 / 1000000 \<le> np_std (values_of Temp_out (station_group demo_obs ''A'')) \<and>
   filter (\<lambda>r. anomaly_station_id r = ''A'' \<and> variable r = ''temp_out'')
     [demo_rec ''1'' (-1), demo_rec ''2'' 1, demo_rec ''3'' 1, demo_rec ''4'' (-1)] =
     map (\<lambda>obs. demo_rec (projr (demo_fmt (timestamp obs))) (temp_out obs))
       (station_group demo_obs ''A'')"
proof -
  have h3: "3 \<le> length (station_group demo_obs ''A'')"
    by (simp add: demo_group)
  have h4: "1 / 1000000 \<le> np_std (values_of Temp_out (station_group demo_obs ''A''))"
    by (simp add: demo_std)
  note inst = flagged_observations_reported [OF refl h3 h4, of demo_fmt "1 / 2"]
  have "\<exists>out. detect_temporal_anomalies demo_fmt demo_obs (1 / 2) = Inr out"
    using inst [THEN conjunct1] demo_fmt_accepts by (rule mp)
  note blk = inst [THEN conjunct2, THEN spec, THEN mp, OF demo_eval]
  show ?thesis
    using demo_eval h3 h4 blk
    by (simp add: demo_std demo_mean)
      (simp add: demo_group demo_rec_def mk_obs_def demo_fmt_def str_nat.simps digit_char_def
        py_round2_def round_half_even_def)
qed

text \<open>
  C2. For every list of observations and every threshold, a station with fewer than three
  observations in the list contributes no record to the list that the detector returns.
\<close>

theorem small_station_silent:
  assumes "detect_temporal_anomalies fmt obs_in thr = Inr out"
    and "length (filter (\<lambda>obs. station_id obs = sid) obs_in) < 3"
  shows "filter (\<lambda>r. anomaly_station_id r = sid) out = []"
  using assms detect_Inr(1)[OF assms(1)]
  by (simp add: filter_station_expected station_block_def station_group_def)

theorem small_station_silent_witness:
  "detect_temporal_anomalies demo_fmt demo_obs (1 / 2) =
     Inr [demo_rec ''1'' (-1), demo_rec ''2'' 1, demo_rec ''3'' 1, demo_rec ''4'' (-1)] \<and>
   length (filter (\<lambda>obs. station_id obs = ''B'') demo_obs) = 1 \<and>
   filter (\<lambda>r. anomaly_station_id r = ''B'')
     [demo_rec ''1'' (-1), demo_rec ''2'' 1, demo_rec ''3'' 1, demo_rec ''4'' (-1)] = []"
proof -
  have few: "length (filter (\<lambda>obs. station_id obs = ''B'') demo_obs) < 3"
    by (simp add: demo_obs_def mk_obs_def)
  have "length (filter (\<lambda>obs. station_id obs = ''B'') demo_obs) = 1"
    by (simp add: demo_obs_def mk_obs_def)
  then show ?thesis
    using demo_eval small_station_silent [OF demo_eval few] by simp
qed

text \<open>
  C3. A variable whose population standard deviation over a station's group is below
  \<open>1e-6\<close> has no record for that station in the result, whatever the threshold. And the
  division of the Z-score computation is never reached with a divisor below \<open>1e-6\<close>: the
  detector run with any other operation \<open>dv\<close> in the place of the division, one that
  agrees with the division on the divisors from \<open>1e-6\<close> upwards, gives the same outcome.
\<close>

theorem near_constant_variable_skipped:
  "(detect_temporal_anomalies fmt obs_in thr = Inr out \<longrightarrow>
      np_std (values_of v (station_group obs_in sid)) < 1 / 1000000 \<longrightarrow>
      filter (\<lambda>r. anomaly_station_id r = sid \<and> variable r = var_name v) out = []) \<and>
   ((\<forall>x s. 1 / 1000000 \<le> s \<longrightarrow> dv x s = x / s) \<longrightarrow>
      detect_with dv fmt obs_in thr = detect_temporal_anomalies fmt obs_in thr)"
proof (intro conjI impI)
  assume ok: "detect_temporal_anomalies fmt obs_in thr = Inr out"
    and small: "np_std (values_of v (station_group obs_in sid)) < 1 / 1000000"
  show "filter (\<lambda>r. anomaly_station_id r = sid \<and> variable r = var_name v) out = []"
    using small
    by (simp add: detect_Inr(1)[OF ok] filter_station_var_expected var_block_def flagged_def)
next
  assume "\<forall>x s. 1 / 1000000 \<le> s \<longrightarrow> dv x s = x / s"
  then show "detect_with dv fmt obs_in thr = detect_temporal_anomalies fmt obs_in thr"
    by (intro detect_with_division) simp
qed

theorem near_constant_variable_skipped_witness:
  "detect_temporal_anomalies demo_fmt demo_obs (1 / 2) =
     Inr [demo_rec ''1'' (-1), demo_rec ''2'' 1, demo_rec ''3'' 1, demo_rec ''4'' (-1)] \<and>
   np_std (values_of Rain (station_group demo_obs ''A'')) < 1 / 1000000 \<and>
   filter (\<lambda>r. anomaly_station_id r = ''A'' \<and> variable r = ''rain'')
     [demo_rec ''1'' (-1), demo_rec ''2'' 1, demo_rec ''3'' 1, demo_rec ''4'' (-1)] = [] \<and>
   detect_with (\<lambda>x s. if s < 1 / 1000000 then 42 else x / s) demo_fmt demo_obs (1 / 2) =
     Inr [demo_rec ''1'' (-1), demo_rec ''2'' 1, demo_rec ''3'' 1, demo_rec ''4'' (-1)]"
proof -
  have small: "np_std (values_of Rain (station_group demo_obs ''A'')) < 1 / 1000000"
    by (simp add: demo_group values_of_def mk_obs_def np_std_def np_mean_def)
  have agree: "\<forall>x s::real. 1 / 1000000 \<le> s \<longrightarrow> (if s < 1 / 1000000 then 42 else x / s) = x / s"
    by simp
  show ?thesis
    using demo_eval small agree
      near_constant_variable_skipped [of demo_fmt demo_obs "1 / 2"
        "[demo_rec ''1'' (-1), demo_rec ''2'' 1, demo_rec ''3'' 1, demo_rec ''4'' (-1)]"
        Rain "''A''" "\<lambda>x s. if s < 1 / 1000000 then 42 else x / s"]
    by (simp add: demo_rec_def)
qed

text \<open>
  C4. For a fixed list of observations and thresholds \<open>t1 \<le> t2\<close>: when the detector
  returns at \<open>t1\<close> it returns at \<open>t2\<close> too, with at most as many records.
\<close>

theorem raising_threshold_shrinks_result:
  assumes "t1 \<le> t2"
    and "detect_temporal_anomalies fmt obs_in t1 = Inr out1"
  shows "\<exists>out2. detect_temporal_anomalies fmt obs_in t2 = Inr out2 \<and> length out2 \<le> length out1"
proof -
  note ok = detect_Inr[OF assms(2)]
  have "\<forall>t\<in>set (fmt_calls obs_in t1). \<exists>s. fmt t = Inr s"
    using ok(2) by (simp only: first_error_None_iff)
  then have "\<forall>t\<in>set (fmt_calls obs_in t2). \<exists>s. fmt t = Inr s"
    using fmt_calls_mono[OF assms(1), of obs_in] by (meson subsetD)
  then have "first_error fmt (fmt_calls obs_in t2) = None"
    by (simp only: first_error_None_iff)
  then have "detect_temporal_anomalies fmt obs_in t2 = Inr (expected (\<lambda>t. projr (fmt t)) obs_in t2)"
    by (simp add: detect_eq outcome_def)
  then show ?thesis
    using length_expected_mono[OF assms(1)] ok(1) by simp
qed

theorem raising_threshold_shrinks_result_witness:
  "(1 / 2 :: real) \<le> 5 / 2 \<and>
   detect_temporal_anomalies demo_fmt demo_obs (1 / 2) =
     Inr [demo_rec ''1'' (-1), demo_rec ''2'' 1, demo_rec ''3'' 1, demo_rec ''4'' (-1)] \<and>
   detect_temporal_anomalies demo_fmt demo_obs (5 / 2) = Inr [] \<and>
   length ([] :: anomaly_result list) \<le>
     length [demo_rec ''1'' (-1), demo_rec ''2'' 1, demo_rec ''3'' 1, demo_rec ''4'' (-1)]"
proof -
  have le: "(1 / 2 :: real) \<le> 5 / 2" by simp
  show ?thesis
    using le demo_eval demo_eval_default raising_threshold_shrinks_result [OF le demo_eval]
    by simp
qed



text \<open>
  C6. Two requests with the same observations and the same threshold get the same list of
  anomalies (or the same error), whatever their \<open>window_len\<close> and \<open>stride\<close>.
\<close>

theorem window_and_stride_inert:
  assumes "observations r2 = observations r1"
    and "threshold r2 = threshold r1"
  shows "map_sum id anomalies (detect_anomalies fmt now2 r2) =
         map_sum id anomalies (detect_anomalies fmt now1 r1)"
  using assms
  by (simp add: detect_anomalies_def detect_anomalies_with_def split: sum.splits)

theorem window_and_stride_inert_witness:
  "map_sum id anomalies (detect_anomalies demo_fmt ''later''
      \<lparr>observations = demo_obs, window_len = 10, stride = 1, threshold = 1 / 2\<rparr>) =
   map_sum id anomalies (detect_anomalies demo_fmt ''now''
      \<lparr>observations = demo_obs, window_len = 60, stride = 18, threshold = 1 / 2\<rparr>) \<and>
   map_sum id anomalies (detect_anomalies demo_fmt ''now''
      \<lparr>observations = demo_obs, window_len = 60, stride = 18, threshold = 1 / 2\<rparr>) =
   Inr [demo_rec ''1'' (-1), demo_rec ''2'' 1, demo_rec ''3'' 1, demo_rec ''4'' (-1)]"
proof -
  have "map_sum id anomalies (detect_anomalies demo_fmt ''now''
      \<lparr>observations = demo_obs, window_len = 60, stride = 18, threshold = 1 / 2\<rparr>) =
      Inr [demo_rec ''1'' (-1), demo_rec ''2'' 1, demo_rec ''3'' 1, demo_rec ''4'' (-1)]"
    using demo_eval by (simp add: detect_anomalies_def detect_anomalies_with_def demo_obs_def)
  then show ?thesis
    using window_and_stride_inert [of
        "\<lparr>observations = demo_obs, window_len = 10, stride = 1, threshold = 1 / 2\<rparr>"
        "\<lparr>observations = demo_obs, window_len = 60, stride = 18, threshold = 1 / 2\<rparr>"
        demo_fmt "''later''" "''now''"]
    by simp
qed

text \<open>
  C7. When the formatter accepts every timestamp of the batch, the detector returns. The
  result it returns is never re-sorted: it is the concatenation, over the stations in the
  order of their first appearance in the input, then over the variables in the order
  temperature, humidity, wind speed, pressure, rainfall, of the records of the flagged
  observations in the order of the station's group. The group is sorted by timestamp, and
  observations with equal timestamps keep the order they have in the input.
\<close>

theorem result_order:
  "((\<forall>obs\<in>set obs_in. \<exists>s. fmt (timestamp obs) = Inr s) \<longrightarrow>
      (\<exists>out. detect_temporal_anomalies fmt obs_in thr = Inr out)) \<and>
   (\<forall>out. detect_temporal_anomalies fmt obs_in thr = Inr out \<longrightarrow>
      out =
       concat (map (\<lambda>sid.
           let g = station_group obs_in sid in
           if length g < 3 then []
           else concat (map (\<lambda>v. map (record_of (\<lambda>t. projr (fmt t)) sid g v)
                   (filter (\<lambda>obs. 1 / 1000000 \<le> np_std (values_of v g) \<and> thr < \<bar>z_of v g obs\<bar>) g))
                 [Temp_out, Out_hum, Wind_speed, Bar, Rain]))
         (first_seen (map station_id obs_in)))) \<and>
   (\<forall>sid. sorted (map timestamp (station_group obs_in sid))) \<and>
   (\<forall>sid t. filter (\<lambda>obs. timestamp obs = t) (station_group obs_in sid) =
      filter (\<lambda>obs. station_id obs = sid \<and> timestamp obs = t) obs_in)"
proof (intro conjI impI allI)
  assume "\<forall>obs\<in>set obs_in. \<exists>s. fmt (timestamp obs) = Inr s"
  then have "detect_temporal_anomalies fmt obs_in thr =
      Inr (expected (\<lambda>t. projr (fmt t)) obs_in thr)"
    by (rule detect_returns)
  then show "\<exists>out. detect_temporal_anomalies fmt obs_in thr = Inr out" ..
next
  fix out
  assume "detect_temporal_anomalies fmt obs_in thr = Inr out"
  then show "out =
       concat (map (\<lambda>sid.
           let g = station_group obs_in sid in
           if length g < 3 then []
           else concat (map (\<lambda>v. map (record_of (\<lambda>t. projr (fmt t)) sid g v)
                   (filter (\<lambda>obs. 1 / 1000000 \<le> np_std (values_of v g) \<and> thr < \<bar>z_of v g obs\<bar>) g))
                 [Temp_out, Out_hum, Wind_speed, Bar, Rain]))
         (first_seen (map station_id obs_in)))"
    by (rule returned_order [THEN conjunct1])
next
  fix sid
  show "sorted (map timestamp (station_group obs_in sid))"
    by (rule station_group_sorted)
next
  fix sid t
  show "filter (\<lambda>obs. timestamp obs = t) (station_group obs_in sid) =
      filter (\<lambda>obs. station_id obs = sid \<and> timestamp obs = t) obs_in"
    by (rule station_group_stable)
qed

theorem result_order_witness:
  "detect_temporal_anomalies demo_fmt demo2_obs (3 / 4) =
     Inr [demo2_rec ''B'' ''9'' ''temp_out'' ''5'' 7 (167 / 100),
          demo2_rec ''B'' ''9'' ''temp_out'' ''5'' (-1) (-1),
          demo2_rec ''B'' ''9'' ''rain'' ''1'' 8 (167 / 100),
          demo2_rec ''B'' ''9'' ''rain'' ''5'' 0 (-1),
          demo2_rec ''A'' ''4'' ''temp_out'' ''3'' 7 (167 / 100),
          demo2_rec ''A'' ''4'' ''temp_out'' ''4'' (-1) (-1)] \<and>
   first_seen (map station_id demo2_obs) = [''B'', ''A''] \<and>
   station_group demo2_obs ''B'' =
     [mk_obs2 ''B'' 1 1 8, mk_obs2 ''B'' 5 7 2, mk_obs2 ''B'' 5 (-1) 0, mk_obs2 ''B'' 9 1 2] \<and>
   sorted (map timestamp (station_group demo2_obs ''B'')) \<and>
   filter (\<lambda>obs. timestamp obs = 5) (station_group demo2_obs ''B'') =
     filter (\<lambda>obs. station_id obs = ''B'' \<and> timestamp obs = 5) demo2_obs"
proof -
  have keys: "first_seen (map station_id demo2_obs) = [''B'', ''A'']"
    by (simp add: demo2_obs_def mk_obs2_def mk_obs_def)
  have grp: "station_group demo2_obs ''B'' =
     [mk_obs2 ''B'' 1 1 8, mk_obs2 ''B'' 5 7 2, mk_obs2 ''B'' 5 (-1) 0, mk_obs2 ''B'' 9 1 2]"
    by (simp add: station_group_def demo2_obs_def mk_obs2_def mk_obs_def)
  note order = result_order [of demo2_obs demo_fmt "3 / 4"]
  have "\<exists>out. detect_temporal_anomalies demo_fmt demo2_obs (3 / 4) = Inr out"
    using order [THEN conjunct1] demo2_fmt_accepts by (rule mp)
  have "sorted (map timestamp (station_group demo2_obs ''B''))"
    using order [THEN conjunct2, THEN conjunct2, THEN conjunct1] by (rule spec)
  moreover have "filter (\<lambda>obs. timestamp obs = 5) (station_group demo2_obs ''B'') =
      filter (\<lambda>obs. station_id obs = ''B'' \<and> timestamp obs = 5) demo2_obs"
    using order [THEN conjunct2, THEN conjunct2, THEN conjunct2, THEN spec, THEN spec] .
  ultimately show ?thesis
    using demo2_eval keys grp by (intro conjI)
qed

text \<open>
  C8. With fewer than three observations (none included) the endpoint raises an HTTP 400
  whatever the detector would do: the detector is not called. With three or more, an
  exception of the detector with message \<open>e\<close> becomes an HTTP 500 whose detail is
  \<open>Detection failed: e\<close>.
\<close>

theorem endpoint_errors:
  "(length (observations request) < 3 \<longrightarrow>
      (\<exists>msg. \<forall>detector. detect_anomalies_with detector now request = Inl (HTTPException 400 msg))) \<and>
   (3 \<le> length (observations request) \<longrightarrow>
      detector (observations request) (threshold request) = Inl e \<longrightarrow>
      detect_anomalies_with detector now request =
        Inl (HTTPException 500 (''Detection failed: '' @ e)))"
proof (intro conjI impI)
  assume "length (observations request) < 3"
  then show "\<exists>msg. \<forall>detector. detect_anomalies_with detector now request =
      Inl (HTTPException 400 msg)"
    by (cases "observations request = []") (auto simp: detect_anomalies_with_def)
next
  assume "3 \<le> length (observations request)"
    and "detector (observations request) (threshold request) = Inl e"
  then show "detect_anomalies_with detector now request =
      Inl (HTTPException 500 (''Detection failed: '' @ e))"
    by (auto simp: detect_anomalies_with_def)
qed

theorem endpoint_errors_witness:
  "detect_anomalies demo_fmt ''now''
     \<lparr>observations = [], window_len = 60, stride = 18, threshold = 5 / 2\<rparr> =
     Inl (HTTPException 400 ''No observations provided'') \<and>
   detect_anomalies demo_fmt ''now''
     \<lparr>observations = [mk_obs ''A'' 1 1, mk_obs ''A'' 2 2], window_len = 60, stride = 18,
      threshold = 5 / 2\<rparr> =
     Inl (HTTPException 400
       ''Insufficient data: 2 observations provided. Minimum 3 required for statistical analysis.'') \<and>
   detect_temporal_anomalies demo_fmt bad_obs (5 / 2) = Inl ''year out of range'' \<and>
   detect_anomalies demo_fmt ''now''
     \<lparr>observations = bad_obs, window_len = 60, stride = 18, threshold = 5 / 2\<rparr> =
     Inl (HTTPException 500 ''Detection failed: year out of range'')"
proof -
  let ?req = "\<lparr>observations = bad_obs, window_len = 60, stride = 18, threshold = 5 / 2\<rparr>"
  have len: "3 \<le> length (observations ?req)" by (simp add: bad_obs_def)
  have raised: "detect_temporal_anomalies demo_fmt (observations ?req) (threshold ?req) =
      Inl ''year out of range''"
    using bad_eval by simp
  have "detect_anomalies demo_fmt ''now'' ?req =
      Inl (HTTPException 500 ''Detection failed: year out of range'')"
    using endpoint_errors [of ?req "''now''" "detect_temporal_anomalies demo_fmt" "''year out of range''"]
      len raised
    by (simp add: detect_anomalies_def)
  then show ?thesis
    using bad_eval
    by (simp add: detect_anomalies_def detect_anomalies_with_def str_nat.simps digit_char_def)
qed





end
